theory Spec2Isabelle
  imports Main
begin

section \<open>Text primitives of the three scripts\<close>

text \<open>
  The scripts \<^verbatim>\<open>on.py\<close>, \<open>off.py\<close> and \<open>query.py\<close> work on Python \<open>str\<close> values.
  A text is modelled as a \<open>string\<close> whose characters are the code points U+0000 to
  U+00FF, one \<open>char\<close> per code point. On that alphabet the three primitives below are
  what CPython computes:

  \<^item> \<open>str.strip()\<close> and the pattern class \<open>\s\<close> use the same white-space test, true of
    the twelve code points listed in \<open>isspace\<close>;
  \<^item> \<open>str.upper()\<close> maps \<open>a\<close>..\<open>z\<close> and U+00E0..U+00FE (except the division sign U+00F7)
    to the code point 32 below, and U+00DF to the two letters \<open>SS\<close>. The upper-case
    forms of U+00B5 and U+00FF lie outside the alphabet (U+039C, U+0178); the model
    keeps the character, which, like the real result, is no ASCII character, so that
    comparisons with the ASCII keywords of the scripts are the same;
  \<^item> under \<open>re.IGNORECASE\<close> an ASCII letter of a pattern matches exactly its two cases.
\<close>

definition isspace :: "char \<Rightarrow> bool" where
  "isspace c = (c \<in> set [CHR 0x09, CHR 0x0A, CHR 0x0B, CHR 0x0C, CHR 0x0D,
                           CHR 0x1C, CHR 0x1D, CHR 0x1E, CHR 0x1F, CHR 0x20,
                           CHR 0x85, CHR 0xA0])"

definition strip :: "string \<Rightarrow> string" where
  "strip s = rev (dropWhile isspace (rev (dropWhile isspace s)))"

definition upper_char :: "char \<Rightarrow> string" where
  "upper_char c =
     (let n = (of_char c :: nat) in
      if 97 \<le> n \<and> n \<le> 122 then [char_of (n - 32)]
      else if n = 223 then ''SS''
      else if 224 \<le> n \<and> n \<le> 254 \<and> n \<noteq> 247 then [char_of (n - 32)]
      else [c])"

definition upper :: "string \<Rightarrow> string" where
  "upper s = concat (map upper_char s)"

text \<open>Python's \<open>needle in hay\<close> on two texts: \<open>needle\<close> occurs as a contiguous block.\<close>

fun contains :: "string \<Rightarrow> string \<Rightarrow> bool" where
  "contains [] needle = (needle = [])"
| "contains (c # cs) needle =
     (take (length needle) (c # cs) = needle \<or> contains cs needle)"

section \<open>Status normalizers\<close>

text \<open>
  Each script has its own \<open>normalize_status\<close>. The argument is \<open>str | None\<close>, the result
  one of four texts. The one of \<open>on.py\<close> lists four spellings of ON, the ones of
  \<open>off.py\<close> and \<open>query.py\<close> list five.
\<close>

definition on_normalize_status :: "string option \<Rightarrow> string" where
  "on_normalize_status s =
     (case s of
        None \<Rightarrow> ''UNKNOWN''
      | Some t \<Rightarrow>
          (let up = upper (strip t) in
           if up \<in> set [''ON'', ''STARTUP'', ''STARTUP1'', ''STARTUP2''] then ''ON''
           else if up \<in> set [''OFF'', ''STANDBY''] then ''OFF''
           else if contains up ''COOL'' \<or> contains up ''WARM'' then ''COOLING''
           else ''UNKNOWN''))"

definition off_normalize_status :: "string option \<Rightarrow> string" where
  "off_normalize_status s =
     (case s of
        None \<Rightarrow> ''UNKNOWN''
      | Some t \<Rightarrow>
          (let up = upper (strip t) in
           if up \<in> set [''ON'', ''STARTUP'', ''STARTUP1'', ''STARTUP2'', ''POWER ON'']
           then ''ON''
           else if up \<in> set [''OFF'', ''STANDBY''] then ''OFF''
           else if contains up ''COOL'' \<or> contains up ''WARM'' then ''COOLING''
           else ''UNKNOWN''))"

definition query_normalize_status :: "string option \<Rightarrow> string" where
  "query_normalize_status s =
     (case s of
        None \<Rightarrow> ''UNKNOWN''
      | Some t \<Rightarrow>
          (let up = upper (strip t) in
           if up \<in> set [''ON'', ''STARTUP'', ''STARTUP1'', ''STARTUP2'', ''POWER ON'']
           then ''ON''
           else if up \<in> set [''OFF'', ''STANDBY''] then ''OFF''
           else if contains up ''COOL'' \<or> contains up ''WARM'' then ''COOLING''
           else ''UNKNOWN''))"

section \<open>Status extraction\<close>

text \<open>
  All three scripts compile the same two patterns,
  \<^verbatim>\<open>STATUS_RE = var\s+info_status_value\s*=\s*\[([^\]]*)\]\<close> (ignoring case) and
  \<^verbatim>\<open>QUOTED_ITEM_RE = '([^']*)'\<close>.

  In \<open>STATUS_RE\<close> every repetition is followed by a character outside the repeated
  class (\<open>\s+\<close> by \<open>i\<close>, \<open>\s*\<close> by \<open>=\<close> and by \<open>[\<close>, \<open>[^\]]*\<close> by \<open>]\<close>), so giving back
  characters never turns a failed attempt into a match: an attempt at a position is
  decided by taking each repetition as long as possible. \<open>STATUS_RE_match\<close> is that
  attempt at the start of a text, and returns group 1.
\<close>

definition lower_ascii :: "char \<Rightarrow> char" where
  "lower_ascii c =
     (let n = (of_char c :: nat) in if 65 \<le> n \<and> n \<le> 90 then char_of (n + 32) else c)"

fun literal_ic :: "string \<Rightarrow> string \<Rightarrow> string option" where
  "literal_ic [] s = Some s"
| "literal_ic (p # ps) [] = None"
| "literal_ic (p # ps) (c # cs) =
     (if lower_ascii c = lower_ascii p then literal_ic ps cs else None)"

definition STATUS_RE_match :: "string \<Rightarrow> string option" where
  "STATUS_RE_match s =
     (case literal_ic ''var'' s of
        None \<Rightarrow> None
      | Some r1 \<Rightarrow>
          if takeWhile isspace r1 = [] then None
          else
            (case literal_ic ''info_status_value'' (dropWhile isspace r1) of
               None \<Rightarrow> None
             | Some r2 \<Rightarrow>
                 (case dropWhile isspace r2 of
                    [] \<Rightarrow> None
                  | e # r3 \<Rightarrow>
                      if e \<noteq> CHR ''='' then None
                      else
                        (case dropWhile isspace r3 of
                           [] \<Rightarrow> None
                         | b # r4 \<Rightarrow>
                             if b \<noteq> CHR ''['' then None
                             else
                               (case dropWhile (\<lambda>c. c \<noteq> CHR '']'') r4 of
                                  [] \<Rightarrow> None
                                | _ # _ \<Rightarrow>
                                    Some (takeWhile (\<lambda>c. c \<noteq> CHR '']'') r4))))))"

text \<open>\<open>STATUS_RE.search\<close>: the attempt at each position from the left; group 1 of the
  first that succeeds.\<close>

fun STATUS_RE_search :: "string \<Rightarrow> string option" where
  "STATUS_RE_search [] = STATUS_RE_match []"
| "STATUS_RE_search (c # cs) =
     (case STATUS_RE_match (c # cs) of
        Some g \<Rightarrow> Some g
      | None \<Rightarrow> STATUS_RE_search cs)"

text \<open>
  \<open>QUOTED_ITEM_RE.findall\<close>: the contents of the quoted items, left to right, the scan
  resuming behind each closing quote. An opening quote with no closing quote behind it
  ends the scan (no later position has a quote to start from).
\<close>

function QUOTED_ITEM_RE_findall :: "string \<Rightarrow> string list" where
  "QUOTED_ITEM_RE_findall s =
     (case dropWhile (\<lambda>c. c \<noteq> CHR 0x27) s of
        [] \<Rightarrow> []
      | _ # r \<Rightarrow>
          (case dropWhile (\<lambda>c. c \<noteq> CHR 0x27) r of
             [] \<Rightarrow> []
           | _ # r' \<Rightarrow> takeWhile (\<lambda>c. c \<noteq> CHR 0x27) r # QUOTED_ITEM_RE_findall r'))"
  by pat_completeness auto

termination
proof (relation "measure length", goal_cases)
  case 1
  show ?case by simp
next
  case (2 s q r q' r')
  have "length (dropWhile (\<lambda>c. c \<noteq> CHR 0x27) s) \<le> length s"
   and "length (dropWhile (\<lambda>c. c \<noteq> CHR 0x27) r) \<le> length r"
    by (rule length_dropWhile_le)+
  with 2 show ?case by simp
qed

definition compact :: "string \<Rightarrow> string" where
  "compact html = filter (\<lambda>c. c \<noteq> CHR 0x0A) (filter (\<lambda>c. c \<noteq> CHR 0x0D) html)"

definition on_parse_info_status :: "string \<Rightarrow> string option" where
  "on_parse_info_status html =
     (case STATUS_RE_search (compact html) of
        None \<Rightarrow> None
      | Some array_content \<Rightarrow>
          (case QUOTED_ITEM_RE_findall array_content of
             [] \<Rightarrow> None
           | item # _ \<Rightarrow> Some item))"

definition off_parse_info_status :: "string \<Rightarrow> string option" where
  "off_parse_info_status html =
     (case STATUS_RE_search (compact html) of
        None \<Rightarrow> None
      | Some g \<Rightarrow>
          (case QUOTED_ITEM_RE_findall g of
             [] \<Rightarrow> None
           | item # _ \<Rightarrow> Some item))"

definition query_parse_info_status :: "string \<Rightarrow> string option \<times> string list" where
  "query_parse_info_status html =
     (case STATUS_RE_search (compact html) of
        None \<Rightarrow> (None, [])
      | Some array_content \<Rightarrow>
          (let items = QUOTED_ITEM_RE_findall array_content;
               first = (case items of [] \<Rightarrow> None | item # _ \<Rightarrow> Some item)
           in (first, items)))"

section \<open>Sessions of the power-on and power-off scripts\<close>

text \<open>
  The network, the device and the clock are the environment of a run. A \<open>world\<close> fixes
  what the environment does: what the \<open>k\<close>-th call of \<open>fetch\<close> gives (\<open>Inl\<close> the
  exception it raises, \<open>Inr\<close> the decoded page), how long that call takes, how long the
  toggle request takes, and by how much the \<open>k\<close>-th \<open>time.sleep\<close> oversleeps. Time is
  counted in whole time units from the start of the run; it passes only in these three
  operations.

  \<open>OtherException\<close> stands for the exceptions of \<open>fetch\<close> that are no \<open>URLError\<close> (of
  which \<open>HTTPError\<close> is a subclass): a \<open>TimeoutError\<close> raised while the body is read, a
  \<open>ValueError\<close> for a URL that \<open>urllib\<close> cannot handle, and the like.
\<close>

datatype error = URLError | HTTPError | OtherException

record world =
  fetch_result :: "nat \<Rightarrow> error + string"
  fetch_time :: "nat \<Rightarrow> nat"
  toggle_time :: nat
  sleep_extra :: "nat \<Rightarrow> nat"

text \<open>What a run has done so far: the clock, the number of fetches and sleeps, and the
  requests and sleeps in the order they happened. The printed lines are left out.\<close>

datatype event = StatusRequest | ToggleRequest | Sleep

record session =
  now :: nat
  fetches :: nat
  sleeps :: nat
  trace :: "event list"

definition init :: session where
  "init = \<lparr>now = 0, fetches = 0, sleeps = 0, trace = []\<rparr>"

definition fetch :: "world \<Rightarrow> session \<Rightarrow> (error + string) \<times> session" where
  "fetch w s =
     (fetch_result w (fetches s),
      s\<lparr>now := now s + fetch_time w (fetches s),
        fetches := Suc (fetches s),
        trace := trace s @ [StatusRequest]\<rparr>)"

text \<open>\<open>toggle_power\<close> catches every exception of its request, so a failed request
  differs from a successful one only in the line printed.\<close>

definition toggle_power :: "world \<Rightarrow> session \<Rightarrow> session" where
  "toggle_power w s =
     s\<lparr>now := now s + toggle_time w, trace := trace s @ [ToggleRequest]\<rparr>"

definition sleep :: "world \<Rightarrow> nat \<Rightarrow> session \<Rightarrow> session" where
  "sleep w secs s =
     s\<lparr>now := now s + secs + sleep_extra w (sleeps s),
       sleeps := Suc (sleeps s),
       trace := trace s @ [Sleep]\<rparr>"

text \<open>The three places where \<open>main\<close> of \<open>on.py\<close> and \<open>off.py\<close> ends: \<open>sys.exit(0)\<close> after
  the first status check, \<open>sys.exit(0)\<close> inside the loop, \<open>sys.exit(1)\<close> behind the loop.\<close>

datatype ending = Already | Now | Timeout

fun exit_code :: "ending \<Rightarrow> int" where
  "exit_code Already = 0"
| "exit_code Now = 0"
| "exit_code Timeout = 1"

subsection \<open>on.py\<close>

definition on_POLL_INTERVAL :: nat where
  "on_POLL_INTERVAL = 3"

definition on_MAX_WAIT :: nat where
  "on_MAX_WAIT = 90"

definition on_get_status :: "world \<Rightarrow> session \<Rightarrow> string \<times> session" where
  "on_get_status w s =
     (case fetch w s of
        (Inl e, s') \<Rightarrow> (''UNKNOWN'', s')
      | (Inr html, s') \<Rightarrow> (on_normalize_status (on_parse_info_status html), s'))"

text \<open>The loop \<^verbatim>\<open>while time.time() - start < MAX_WAIT\<close>. \<open>start\<close> is an earlier reading of
  the clock, so the difference is never negative.\<close>

function on_poll :: "world \<Rightarrow> nat \<Rightarrow> session \<Rightarrow> ending \<times> session" where
  "on_poll w start s =
     (if now s - start < on_MAX_WAIT then
        (let r = on_get_status w (sleep w on_POLL_INTERVAL s) in
         if fst r = ''ON'' then (Now, snd r) else on_poll w start (snd r))
      else (Timeout, s))"
  by pat_completeness auto
termination
  by (relation "measure (\<lambda>(w, start, s). (start + on_MAX_WAIT) - now s)")
     (auto simp: on_get_status_def fetch_def sleep_def on_POLL_INTERVAL_def
           split: sum.splits)

definition on_main :: "world \<Rightarrow> ending \<times> session" where
  "on_main w =
     (let r = on_get_status w init; status = fst r in
      if status = ''ON'' then (Already, snd r)
      else
        (let s = toggle_power w (snd r); start = now s in
         on_poll w start s))"

subsection \<open>off.py\<close>

definition off_POLL_INTERVAL :: nat where
  "off_POLL_INTERVAL = 5"

definition off_MAX_WAIT :: nat where
  "off_MAX_WAIT = 180"

definition off_get_status :: "world \<Rightarrow> session \<Rightarrow> string \<times> session" where
  "off_get_status w s =
     (case fetch w s of
        (Inl e, s') \<Rightarrow> (''UNKNOWN'', s')
      | (Inr html, s') \<Rightarrow> (off_normalize_status (off_parse_info_status html), s'))"

function off_poll :: "world \<Rightarrow> nat \<Rightarrow> session \<Rightarrow> ending \<times> session" where
  "off_poll w start s =
     (if now s - start < off_MAX_WAIT then
        (let r = off_get_status w (sleep w off_POLL_INTERVAL s) in
         if fst r = ''OFF'' then (Now, snd r) else off_poll w start (snd r))
      else (Timeout, s))"
  by pat_completeness auto
termination
  by (relation "measure (\<lambda>(w, start, s). (start + off_MAX_WAIT) - now s)")
     (auto simp: off_get_status_def fetch_def sleep_def off_POLL_INTERVAL_def
           split: sum.splits)

text \<open>\<open>main\<close> of \<open>off.py\<close>. The branch for \<open>COOLING\<close> only prints; the toggle is sent in
  the branch for \<open>ON\<close>.\<close>

definition off_main :: "world \<Rightarrow> ending \<times> session" where
  "off_main w =
     (let r = off_get_status w init; status = fst r in
      if status = ''OFF'' then (Already, snd r)
      else
        (let s = (if status = ''ON'' then toggle_power w (snd r) else snd r);
             start = now s
         in off_poll w start s))"

subsection \<open>query.py\<close>

text \<open>
  \<open>main\<close> of \<open>query.py\<close> fetches once. It catches \<open>URLError\<close> and \<open>HTTPError\<close>, prints
  \<open>UNKNOWN\<close> and exits with 4; any other exception leaves \<open>main\<close> uncaught, and the
  interpreter ends with a traceback (exit status 1) and no status line. The result is
  the status line printed, if any, and how the process ends.
\<close>

datatype process_end = Exit int | Traceback error

definition query_main :: "error + string \<Rightarrow> string option \<times> process_end" where
  "query_main fetched =
     (case fetched of
        Inl e \<Rightarrow>
          if e = URLError \<or> e = HTTPError then (Some ''UNKNOWN'', Exit 4)
          else (None, Traceback e)
      | Inr html \<Rightarrow>
          (let status = query_normalize_status (fst (query_parse_info_status html)) in
           (Some status,
            if status = ''ON'' then Exit 0
            else if status = ''OFF'' then Exit 2
            else if status = ''COOLING'' then Exit 3
            else Exit 4)))"

section \<open>Pages and worlds used as examples\<close>

text \<open>The line of the status page that declares the status array.\<close>

definition startup2_line :: string where
  "startup2_line = ''var info_status_value = ['STARTUP2','ignored'];''"

text \<open>
  The same declaration in any layout: its tokens in order, up to the closing bracket,
  with a text \<open>w1\<close>, ..., \<open>w7\<close> in each place where white space may stand. \<open>startup2_array\<close>
  is what stands between the brackets (group 1 of \<open>STATUS_RE\<close>).
\<close>

definition quoted :: "string \<Rightarrow> string" where
  "quoted t = CHR 0x27 # t @ [CHR 0x27]"

definition startup2_array :: "string \<Rightarrow> string \<Rightarrow> string \<Rightarrow> string \<Rightarrow> string" where
  "startup2_array w4 w5 w6 w7 =
     w4 @ quoted ''STARTUP2'' @ w5 @ '','' @ w6 @ quoted ''ignored'' @ w7"

definition startup2_layout ::
  "string \<Rightarrow> string \<Rightarrow> string \<Rightarrow> string \<Rightarrow> string \<Rightarrow> string \<Rightarrow> string \<Rightarrow> string" where
  "startup2_layout w1 w2 w3 w4 w5 w6 w7 =
     ''var'' @ w1 @ ''info_status_value'' @ w2 @ ''='' @ w3 @ ''['' @ startup2_array w4 w5 w6 w7
     @ '']''"

text \<open>
  Pages that hold the declaration: with line breaks added behind the equals sign and
  inside the quoted token; with a line break in place of the blank behind the equals
  sign; with the array items on indented lines of their own; and with a line break in
  place of the blank behind \<open>var\<close>. Last, a page where another declaration of the array
  stands before the line.
\<close>

definition split_page :: string where
  "split_page =
     ''<html>'' @ [CHR 0x0D, CHR 0x0A] @ ''<script>var info_status_value ='' @ [CHR 0x0A]
     @ '' ['STAR'' @ [CHR 0x0D, CHR 0x0A] @ ''TUP2','ignored'];</script></html>''"

definition break_after_equals :: string where
  "break_after_equals =
     ''<script>var info_status_value ='' @ [CHR 0x0A] @ ''['STARTUP2','ignored'];</script>''"

definition indented_page :: string where
  "indented_page =
     ''<script>'' @ [CHR 0x0A] @ ''var info_status_value = ['' @ [CHR 0x0D, CHR 0x0A]
     @ ''    '' @ quoted ''STARTUP2'' @ '','' @ [CHR 0x0D, CHR 0x0A]
     @ ''    '' @ quoted ''ignored'' @ [CHR 0x0D, CHR 0x0A]
     @ ''];'' @ [CHR 0x0A] @ ''</script>''"

definition break_after_var :: string where
  "break_after_var = ''var'' @ [CHR 0x0A] @ ''info_status_value = ['STARTUP2','ignored'];''"

definition two_declarations :: string where
  "two_declarations =
     ''<script>var info_status_value = ['OFF'];'' @ startup2_line @ ''</script>''"

text \<open>A page that reports a given token.\<close>

definition page :: "string \<Rightarrow> string" where
  "page token =
     ''<html><script>var info_status_value = ['' @ [CHR 0x27] @ token @ [CHR 0x27]
       @ ''];</script></html>''"

text \<open>A device that reports the same token at every fetch; a device that reports a token
  at the first fetch and \<open>STANDBY\<close> from then on; a device that cannot be reached.\<close>

definition steady :: "string \<Rightarrow> world" where
  "steady token =
     \<lparr>fetch_result = (\<lambda>k. Inr (page token)), fetch_time = (\<lambda>k. 1),
      toggle_time = 1, sleep_extra = (\<lambda>k. 0)\<rparr>"

definition then_standby :: "string \<Rightarrow> world" where
  "then_standby token =
     \<lparr>fetch_result = (\<lambda>k. Inr (page (if k = 0 then token else ''STANDBY''))),
      fetch_time = (\<lambda>k. 1), toggle_time = 1, sleep_extra = (\<lambda>k. 0)\<rparr>"

definition unreachable :: world where
  "unreachable =
     \<lparr>fetch_result = (\<lambda>k. Inl URLError), fetch_time = (\<lambda>k. 5),
      toggle_time = 5, sleep_extra = (\<lambda>k. 0)\<rparr>"

declare QUOTED_ITEM_RE_findall.simps [simp del]
declare on_poll.simps [simp del]
declare off_poll.simps [simp del]

section \<open>Properties of the normalizers\<close>

text \<open>\<open>contains\<close> is the substring test: the needle lies between some prefix and some
  suffix of the text.\<close>

lemma contains_iff: "contains hay needle \<longleftrightarrow> (\<exists>pre post. hay = pre @ needle @ post)"
proof (induction hay)
  case Nil
  then show ?case by auto
next
  case (Cons c cs)
  show ?case
  proof
    assume "contains (c # cs) needle"
    then consider "take (length needle) (c # cs) = needle" | "contains cs needle"
      by auto
    then show "\<exists>pre post. c # cs = pre @ needle @ post"
    proof cases
      case 1
      then have "c # cs = [] @ needle @ drop (length needle) (c # cs)"
        by (metis append_Nil append_take_drop_id)
      then show ?thesis by blast
    next
      case 2
      with Cons.IH obtain pre post where "cs = pre @ needle @ post" by blast
      then have "c # cs = (c # pre) @ needle @ post" by simp
      then show ?thesis by blast
    qed
  next
    assume "\<exists>pre post. c # cs = pre @ needle @ post"
    then obtain pre post where eq: "c # cs = pre @ needle @ post" by blast
    show "contains (c # cs) needle"
    proof (cases pre)
      case Nil
      with eq have "take (length needle) (c # cs) = needle" by simp
      then show ?thesis by simp
    next
      case (Cons p ps)
      with eq have "cs = ps @ needle @ post" by simp
      with Cons.IH have "contains cs needle" by blast
      then show ?thesis by simp
    qed
  qed
qed

text \<open>None of the seven keywords compared for equality contains \<open>COOL\<close> or \<open>WARM\<close>, so
  the order of the tests in \<open>normalize_status\<close> never hides a transitional token.\<close>

lemma keywords_not_transitional:
  "up \<in> set [''ON'', ''STARTUP'', ''STARTUP1'', ''STARTUP2'', ''POWER ON'', ''OFF'',
              ''STANDBY'']
   \<Longrightarrow> \<not> contains up ''COOL'' \<and> \<not> contains up ''WARM''"
  by auto

lemma upper_strip_canonical:
  "upper (strip ''ON'') = ''ON''"
  "upper (strip ''OFF'') = ''OFF''"
  "upper (strip ''COOLING'') = ''COOLING''"
  "upper (strip ''UNKNOWN'') = ''UNKNOWN''"
  by code_simp+

lemma query_normalize_status_canonical:
  "query_normalize_status (Some ''ON'') = ''ON''"
  "query_normalize_status (Some ''OFF'') = ''OFF''"
  "query_normalize_status (Some ''COOLING'') = ''COOLING''"
  "query_normalize_status (Some ''UNKNOWN'') = ''UNKNOWN''"
  by (simp_all add: query_normalize_status_def upper_strip_canonical)

lemma query_normalize_status_range:
  "query_normalize_status t \<in> {''ON'', ''OFF'', ''COOLING'', ''UNKNOWN''}"
  by (simp add: query_normalize_status_def Let_def split: option.splits)

text \<open>What holds of the ON spellings: the four that every script lists are ON in
  \<open>on.py\<close>, the five of \<open>off.py\<close> and \<open>query.py\<close> are ON there, in any letter case and
  with white space around.\<close>

lemma normalize_status_on_spellings:
  "upper (strip t) \<in> set [''ON'', ''STARTUP'', ''STARTUP1'', ''STARTUP2'']
   \<Longrightarrow> on_normalize_status (Some t) = ''ON''"
  "upper (strip t) \<in> set [''ON'', ''STARTUP'', ''STARTUP1'', ''STARTUP2'', ''POWER ON'']
   \<Longrightarrow> off_normalize_status (Some t) = ''ON'' \<and> query_normalize_status (Some t) = ''ON''"
  by (simp_all add: query_normalize_status_def off_normalize_status_def
        on_normalize_status_def)

text \<open>
  C1. Every token that equals ON, STARTUP, STARTUP1, STARTUP2 or POWER ON, ignoring case
  and surrounding white space, should normalize to ON in all three scripts. The
  normalizer of \<open>on.py\<close> does not list POWER ON: on the token \<open>POWER ON\<close> it answers
  UNKNOWN, where the normalizers of \<open>off.py\<close> and \<open>query.py\<close> answer ON.
\<close>

theorem on_normalize_status_misses_power_on:
  "on_normalize_status (Some ''POWER ON'') = ''UNKNOWN'' \<and>
   off_normalize_status (Some ''POWER ON'') = ''ON'' \<and>
   query_normalize_status (Some ''POWER ON'') = ''ON''"
  by code_simp

text \<open>
  C6. Normalization is total onto the four canonical states and idempotent: for every
  argument, the absent token included, \<open>normalize_status\<close> of \<open>query.py\<close> returns one of
  ON, OFF, COOLING, UNKNOWN; normalizing its result again returns the same state; and
  each of the four canonical tokens is mapped to itself.
\<close>

theorem query_normalize_status_total_idempotent:
  "query_normalize_status t \<in> {''ON'', ''OFF'', ''COOLING'', ''UNKNOWN''} \<and>
   query_normalize_status (Some (query_normalize_status t)) = query_normalize_status t \<and>
   query_normalize_status (Some ''ON'') = ''ON'' \<and>
   query_normalize_status (Some ''OFF'') = ''OFF'' \<and>
   query_normalize_status (Some ''COOLING'') = ''COOLING'' \<and>
   query_normalize_status (Some ''UNKNOWN'') = ''UNKNOWN''"
  using query_normalize_status_range [of t] query_normalize_status_canonical by auto

text \<open>
  C8. Every token whose trimmed, upper-cased form contains \<open>COOL\<close> or \<open>WARM\<close> normalizes
  to COOLING, in each of the three scripts.
\<close>

theorem normalize_status_cool_warm:
  assumes "contains (upper (strip t)) ''COOL'' \<or> contains (upper (strip t)) ''WARM''"
  shows "query_normalize_status (Some t) = ''COOLING'' \<and>
         off_normalize_status (Some t) = ''COOLING'' \<and>
         on_normalize_status (Some t) = ''COOLING''"
proof -
  have "upper (strip t) \<notin> set [''ON'', ''STARTUP'', ''STARTUP1'', ''STARTUP2'',
                                ''POWER ON'', ''OFF'', ''STANDBY'']"
    using assms keywords_not_transitional by blast
  with assms show ?thesis
    by (simp add: query_normalize_status_def off_normalize_status_def
          on_normalize_status_def)
qed

lemma upper_strip_warm_up: "upper (strip '' Warm-Up  '') = ''WARM-UP''"
  by code_simp

theorem normalize_status_cool_warm_witness:
  "contains (upper (strip '' Warm-Up  '')) ''WARM'' \<and>
   query_normalize_status (Some '' Warm-Up  '') = ''COOLING'' \<and>
   off_normalize_status (Some '' Warm-Up  '') = ''COOLING'' \<and>
   on_normalize_status (Some '' Warm-Up  '') = ''COOLING''"
  using normalize_status_cool_warm [of "'' Warm-Up  ''"]
  by (simp add: upper_strip_warm_up)

text \<open>
  C10. The normalizers of \<open>off.py\<close> and \<open>query.py\<close> are the same function: they agree on
  every text and on the absent token.
\<close>

theorem off_query_normalize_status_equal:
  "off_normalize_status s = query_normalize_status s"
  by (simp add: off_normalize_status_def query_normalize_status_def)

section \<open>Properties of the extractor\<close>

text \<open>The line as the claim writes it is the layout with one blank behind \<open>var\<close>, behind
  the name and behind the equals sign, followed by its semicolon.\<close>

lemma startup2_line_layout:
  "startup2_line = startup2_layout '' '' '' '' '' '' [] [] [] [] @ '';''"
  by (simp add: startup2_line_def startup2_layout_def startup2_array_def quoted_def)

text \<open>A scan passes over a stretch of characters that all satisfy its test; white space
  holds no closing bracket and no quote.\<close>

lemma takeWhile_pass: "list_all P w \<Longrightarrow> takeWhile P (w @ r) = w @ takeWhile P r"
  by (induction w) simp_all

lemma dropWhile_pass: "list_all P w \<Longrightarrow> dropWhile P (w @ r) = dropWhile P r"
  by (induction w) simp_all

lemma isspace_not_bracket: "list_all isspace w \<Longrightarrow> list_all (\<lambda>c. c \<noteq> CHR '']'') w"
  by (induction w) (auto simp: isspace_def)

lemma isspace_not_quote: "list_all isspace w \<Longrightarrow> list_all (\<lambda>c. c \<noteq> CHR 0x27) w"
  by (induction w) (auto simp: isspace_def)

text \<open>\<open>findall\<close> item by item.\<close>

lemma QUOTED_ITEM_RE_findall_none:
  "list_all (\<lambda>c. c \<noteq> CHR 0x27) w \<Longrightarrow> QUOTED_ITEM_RE_findall w = []"
proof -
  assume "list_all (\<lambda>c. c \<noteq> CHR 0x27) w"
  then have e: "dropWhile (\<lambda>c. c \<noteq> CHR 0x27) w = []"
    by (simp add: list_all_iff)
  show ?thesis by (subst QUOTED_ITEM_RE_findall.simps) (simp only: e list.case)
qed

lemma QUOTED_ITEM_RE_findall_item:
  assumes "list_all (\<lambda>c. c \<noteq> CHR 0x27) w" and "list_all (\<lambda>c. c \<noteq> CHR 0x27) t"
  shows "QUOTED_ITEM_RE_findall (w @ quoted t @ r) = t # QUOTED_ITEM_RE_findall r"
proof -
  have a: "dropWhile (\<lambda>c. c \<noteq> CHR 0x27) (w @ quoted t @ r) = CHR 0x27 # t @ CHR 0x27 # r"
    using assms(1) by (simp add: dropWhile_pass quoted_def)
  have b: "dropWhile (\<lambda>c. c \<noteq> CHR 0x27) (t @ CHR 0x27 # r) = CHR 0x27 # r"
    using assms(2) by (simp add: dropWhile_pass)
  have c: "takeWhile (\<lambda>c. c \<noteq> CHR 0x27) (t @ CHR 0x27 # r) = t"
    using assms(2) by (simp add: takeWhile_pass)
  show ?thesis
    by (subst QUOTED_ITEM_RE_findall.simps) (simp add: a b c)
qed

lemma QUOTED_ITEM_RE_findall_startup2_array:
  assumes "list_all isspace (w4 @ w5 @ w6 @ w7)"
  shows "QUOTED_ITEM_RE_findall (startup2_array w4 w5 w6 w7) = [''STARTUP2'', ''ignored'']"
proof -
  from assms have q: "list_all (\<lambda>c. c \<noteq> CHR 0x27) w4" "list_all (\<lambda>c. c \<noteq> CHR 0x27) w5"
    "list_all (\<lambda>c. c \<noteq> CHR 0x27) w6" "list_all (\<lambda>c. c \<noteq> CHR 0x27) w7"
    by (simp_all add: isspace_not_quote)
  have "QUOTED_ITEM_RE_findall (startup2_array w4 w5 w6 w7)
        = QUOTED_ITEM_RE_findall (w4 @ quoted ''STARTUP2'' @ (w5 @ '','' @ w6) @ quoted ''ignored'' @ w7)"
    by (simp add: startup2_array_def)
  also have "\<dots> = ''STARTUP2'' # QUOTED_ITEM_RE_findall ((w5 @ '','' @ w6) @ quoted ''ignored'' @ w7)"
    using q(1) by (intro QUOTED_ITEM_RE_findall_item) simp_all
  also have "QUOTED_ITEM_RE_findall ((w5 @ '','' @ w6) @ quoted ''ignored'' @ w7)
             = ''ignored'' # QUOTED_ITEM_RE_findall w7"
    using q(2,3) by (intro QUOTED_ITEM_RE_findall_item) simp_all
  also have "QUOTED_ITEM_RE_findall w7 = []"
    using q(4) by (rule QUOTED_ITEM_RE_findall_none)
  finally show ?thesis .
qed

text \<open>At the declaration the pattern matches in every layout that has white space
  behind \<open>var\<close>, whatever follows the closing bracket; group 1 is the array.\<close>

lemma STATUS_RE_match_startup2_layout:
  assumes ws: "list_all isspace (w1 @ w2 @ w3 @ w4 @ w5 @ w6 @ w7)" and some: "w1 \<noteq> []"
  shows "STATUS_RE_match (startup2_layout w1 w2 w3 w4 w5 w6 w7 @ post)
         = Some (startup2_array w4 w5 w6 w7)"
proof -
  from ws have sp: "list_all isspace w1" "list_all isspace w2" "list_all isspace w3"
    by simp_all
  from ws have "list_all isspace (startup2_array w4 w5 w6 w7)
                \<or> list_all (\<lambda>c. c \<noteq> CHR '']'') (startup2_array w4 w5 w6 w7)"
    by (simp add: startup2_array_def quoted_def isspace_not_bracket)
  with ws have nb: "list_all (\<lambda>c. c \<noteq> CHR '']'') (startup2_array w4 w5 w6 w7)"
    by (simp add: startup2_array_def quoted_def isspace_not_bracket)
  let ?A = "startup2_array w4 w5 w6 w7"
  have v: "literal_ic ''var'' (startup2_layout w1 w2 w3 w4 w5 w6 w7 @ post)
             = Some (w1 @ ''info_status_value'' @ w2 @ ''='' @ w3 @ ''['' @ ?A @ '']'' @ post)"
    by (simp add: startup2_layout_def lower_ascii_def)
  have t1: "takeWhile isspace (w1 @ ''info_status_value'' @ w2 @ ''='' @ w3 @ ''['' @ ?A @ '']'' @ post) = w1"
    using sp(1) by (simp add: takeWhile_pass isspace_def)
  have d1: "dropWhile isspace (w1 @ ''info_status_value'' @ w2 @ ''='' @ w3 @ ''['' @ ?A @ '']'' @ post)
            = ''info_status_value'' @ w2 @ ''='' @ w3 @ ''['' @ ?A @ '']'' @ post"
    using sp(1) by (simp add: dropWhile_pass isspace_def)
  have n: "literal_ic ''info_status_value'' (''info_status_value'' @ w2 @ ''='' @ w3 @ ''['' @ ?A @ '']'' @ post)
           = Some (w2 @ ''='' @ w3 @ ''['' @ ?A @ '']'' @ post)"
    by (simp add: lower_ascii_def)
  have d2: "dropWhile isspace (w2 @ ''='' @ w3 @ ''['' @ ?A @ '']'' @ post)
            = CHR ''='' # w3 @ ''['' @ ?A @ '']'' @ post"
    using sp(2) by (simp add: dropWhile_pass isspace_def)
  have d3: "dropWhile isspace (w3 @ ''['' @ ?A @ '']'' @ post) = CHR ''['' # ?A @ '']'' @ post"
    using sp(3) by (simp add: dropWhile_pass isspace_def)
  have d4: "dropWhile (\<lambda>c. c \<noteq> CHR '']'') (?A @ '']'' @ post) = CHR '']'' # post"
    using nb by (simp add: dropWhile_pass)
  have t4: "takeWhile (\<lambda>c. c \<noteq> CHR '']'') (?A @ '']'' @ post) = ?A"
    using nb by (simp add: takeWhile_pass)
  from some have ne: "(w1 = []) = False" by simp
  show ?thesis
    by (simp only: STATUS_RE_match_def v t1 d1 n d2 d3 d4 t4 ne option.case list.case
          if_False if_True simp_thms)
qed


text \<open>Positions where the pattern does not match are passed over by the search.\<close>

lemma STATUS_RE_search_skip:
  "\<forall>i<length pre. STATUS_RE_match (drop i (pre @ r)) = None
   \<Longrightarrow> STATUS_RE_search (pre @ r) = STATUS_RE_search r"
proof (induction pre)
  case Nil
  show ?case by simp
next
  case (Cons c cs)
  from Cons.prems have "STATUS_RE_match (drop 0 ((c # cs) @ r)) = None" by blast
  then have here: "STATUS_RE_match (c # cs @ r) = None" by simp
  have "STATUS_RE_match (drop i (cs @ r)) = None" if "i < length cs" for i
  proof -
    from that have "Suc i < length (c # cs)" by simp
    with Cons.prems have "STATUS_RE_match (drop (Suc i) ((c # cs) @ r)) = None" by blast
    then show ?thesis by simp
  qed
  with Cons.IH have "STATUS_RE_search (cs @ r) = STATUS_RE_search r" by blast
  with here show ?case by simp
qed

lemma STATUS_RE_search_here:
  "STATUS_RE_match s = Some g \<Longrightarrow> STATUS_RE_search s = Some g"
  by (cases s) simp_all

lemma normalize_status_STARTUP2:
  "on_normalize_status (Some ''STARTUP2'') = ''ON''"
  "off_normalize_status (Some ''STARTUP2'') = ''ON''"
  "query_normalize_status (Some ''STARTUP2'') = ''ON''"
  by code_simp+

lemma all_less_list_all: "(\<forall>i<n. P i) \<longleftrightarrow> list_all P [0..<n]"
  by (auto simp: list_all_iff)

text \<open>
  Removing the line breaks of a declaration removes them from its white space: a
  declaration written with any white space \<open>u1\<close>, ..., \<open>u7\<close>, line breaks included, is
  read by the extractor as the layout with the texts \<open>compact u1\<close>, ..., \<open>compact u7\<close>,
  which are white space again.
\<close>

lemma compact_append: "compact (a @ b) = compact a @ compact b"
  by (simp add: compact_def)

lemma isspace_compact: "list_all isspace u \<Longrightarrow> list_all isspace (compact u)"
  by (simp add: compact_def list_all_iff)

lemma compact_startup2_layout:
  "compact (startup2_layout u1 u2 u3 u4 u5 u6 u7)
   = startup2_layout (compact u1) (compact u2) (compact u3) (compact u4) (compact u5)
       (compact u6) (compact u7)"
  by (simp add: startup2_layout_def startup2_array_def quoted_def compact_def)

text \<open>
  C7, as the code has it. Take a text that holds the declaration
  \<^verbatim>\<open>var info_status_value = ['STARTUP2','ignored']\<close> between any two texts, in any
  layout: line breaks may be added anywhere, also inside a token, and the white space
  between the tokens and around the array items may be any white space or, except behind
  \<open>var\<close>, none. Formally, the text without its carriage returns and line feeds is \<open>pre\<close>,
  the layout with white space \<open>w1\<close>, ..., \<open>w7\<close>, and \<open>post\<close>. If some white space other
  than a line break is left behind \<open>var\<close> (\<open>w1\<close> is not empty), and the pattern matches at
  no position before the declaration (the search takes the leftmost declaration), then
  the extractors return the token \<open>STARTUP2\<close>, the first quoted item of the two, and the
  token normalizes to ON.
\<close>

theorem parse_info_status_leftmost_declaration:
  assumes "compact html = pre @ startup2_layout w1 w2 w3 w4 w5 w6 w7 @ post"
      and "list_all isspace (w1 @ w2 @ w3 @ w4 @ w5 @ w6 @ w7)"
      and "w1 \<noteq> []"
      and "\<forall>i<length pre.
             STATUS_RE_match (drop i (pre @ startup2_layout w1 w2 w3 w4 w5 w6 w7 @ post)) = None"
  shows "on_parse_info_status html = Some ''STARTUP2'' \<and>
         off_parse_info_status html = Some ''STARTUP2'' \<and>
         query_parse_info_status html = (Some ''STARTUP2'', [''STARTUP2'', ''ignored'']) \<and>
         on_normalize_status (on_parse_info_status html) = ''ON'' \<and>
         off_normalize_status (off_parse_info_status html) = ''ON'' \<and>
         query_normalize_status (fst (query_parse_info_status html)) = ''ON''"
proof -
  have "STATUS_RE_search (startup2_layout w1 w2 w3 w4 w5 w6 w7 @ post)
        = Some (startup2_array w4 w5 w6 w7)"
    using assms(2,3) by (intro STATUS_RE_search_here STATUS_RE_match_startup2_layout)
  with STATUS_RE_search_skip [OF assms(4)] assms(1)
  have found: "STATUS_RE_search (compact html) = Some (startup2_array w4 w5 w6 w7)"
    by simp
  from assms(2) have items:
    "QUOTED_ITEM_RE_findall (startup2_array w4 w5 w6 w7) = [''STARTUP2'', ''ignored'']"
    by (intro QUOTED_ITEM_RE_findall_startup2_array) simp
  show ?thesis
    by (simp add: on_parse_info_status_def off_parse_info_status_def
          query_parse_info_status_def found items normalize_status_STARTUP2)
qed

theorem parse_info_status_leftmost_declaration_witness:
  "on_parse_info_status split_page = Some ''STARTUP2'' \<and>
   on_normalize_status (on_parse_info_status split_page) = ''ON'' \<and>
   off_parse_info_status break_after_equals = Some ''STARTUP2'' \<and>
   query_parse_info_status indented_page = (Some ''STARTUP2'', [''STARTUP2'', ''ignored''])"
proof -
  have a1: "compact split_page
            = ''<html><script>'' @ startup2_layout '' '' '' '' '' '' [] [] [] []
              @ '';</script></html>''"
    by (simp add: compact_def split_page_def startup2_layout_def startup2_array_def quoted_def)
  have b1: "list_all isspace ('' '' @ '' '' @ '' '' @ [] @ [] @ [] @ [])"
    by (simp add: isspace_def)
  have c1: "'' '' \<noteq> []" by simp
  have d1: "\<forall>i<length ''<html><script>''.
             STATUS_RE_match
               (drop i (''<html><script>'' @ startup2_layout '' '' '' '' '' '' [] [] [] []
                        @ '';</script></html>'')) = None"
    unfolding all_less_list_all by code_simp
  have a2: "compact break_after_equals
            = ''<script>'' @ startup2_layout '' '' '' '' [] [] [] [] [] @ '';</script>''"
    by (simp add: compact_def break_after_equals_def startup2_layout_def startup2_array_def
          quoted_def)
  have b2: "list_all isspace ('' '' @ '' '' @ [] @ [] @ [] @ [] @ [])"
    by (simp add: isspace_def)
  have d2: "\<forall>i<length ''<script>''.
             STATUS_RE_match
               (drop i (''<script>'' @ startup2_layout '' '' '' '' [] [] [] [] []
                        @ '';</script>'')) = None"
    unfolding all_less_list_all by code_simp
  have a3: "compact indented_page
            = ''<script>'' @ startup2_layout '' '' '' '' '' '' ''    '' [] ''    '' []
              @ '';</script>''"
    by (simp add: compact_def indented_page_def startup2_layout_def startup2_array_def
          quoted_def)
  have b3: "list_all isspace ('' '' @ '' '' @ '' '' @ ''    '' @ [] @ ''    '' @ [])"
    by (simp add: isspace_def)
  have d3: "\<forall>i<length ''<script>''.
             STATUS_RE_match
               (drop i (''<script>'' @ startup2_layout '' '' '' '' '' '' ''    '' [] ''    '' []
                        @ '';</script>'')) = None"
    unfolding all_less_list_all by code_simp
  from parse_info_status_leftmost_declaration [OF a1 b1 c1 d1]
       parse_info_status_leftmost_declaration [OF a2 b2 c1 d2]
       parse_info_status_leftmost_declaration [OF a3 b3 c1 d3]
  show ?thesis by blast
qed

text \<open>
  The case the statement leaves out: a line break that is the only white space behind
  \<open>var\<close>. The scripts remove line breaks before they search, so \<open>var\<close> and the name run
  together and the extractors find no token, although the pattern matches the text as it
  was fetched (the comment in \<open>query.py\<close> expects the pattern to work either way).
\<close>

lemma parse_info_status_break_after_var:
  "on_parse_info_status break_after_var = None \<and>
   off_parse_info_status break_after_var = None \<and>
   query_parse_info_status break_after_var = (None, []) \<and>
   STATUS_RE_search break_after_var = Some (startup2_array [] [] [] [])"
  by code_simp

text \<open>Without the proviso the claim fails: with a declaration of \<open>OFF\<close> before the line,
  the three extractors return \<open>OFF\<close>.\<close>

theorem parse_info_status_earlier_declaration:
  "on_parse_info_status two_declarations = Some ''OFF'' \<and>
   off_parse_info_status two_declarations = Some ''OFF'' \<and>
   fst (query_parse_info_status two_declarations) = Some ''OFF'' \<and>
   off_normalize_status (off_parse_info_status two_declarations) = ''OFF''"
  by code_simp

section \<open>Properties of the sessions\<close>

subsection \<open>What one operation does\<close>

lemma trace_sleep: "trace (sleep w secs s) = trace s @ [Sleep]"
  by (simp add: sleep_def)

lemma trace_toggle_power: "trace (toggle_power w s) = trace s @ [ToggleRequest]"
  by (simp add: toggle_power_def)

lemma trace_on_get_status: "trace (snd (on_get_status w s)) = trace s @ [StatusRequest]"
  by (simp add: on_get_status_def fetch_def split: sum.splits)

lemma trace_off_get_status: "trace (snd (off_get_status w s)) = trace s @ [StatusRequest]"
  by (simp add: off_get_status_def fetch_def split: sum.splits)

lemma sleeps_on_get_status: "sleeps (snd (on_get_status w s)) = sleeps s"
  by (simp add: on_get_status_def fetch_def split: sum.splits)

lemma sleeps_sleep: "sleeps (sleep w secs s) = Suc (sleeps s)"
  by (simp add: sleep_def)

lemma now_on_get_status:
  "now (snd (on_get_status w s)) = now s + fetch_time w (fetches s)"
  by (simp add: on_get_status_def fetch_def split: sum.splits)

lemma now_sleep: "now (sleep w secs s) = now s + secs + sleep_extra w (sleeps s)"
  by (simp add: sleep_def)

subsection \<open>The polling loop of on.py\<close>

text \<open>The loop only appends to the trace, and what it appends holds no toggle.\<close>

lemma on_poll_trace:
  "\<exists>rest. trace (snd (on_poll w start s)) = trace s @ rest \<and> ToggleRequest \<notin> set rest"
proof (induction w start s rule: on_poll.induct)
  case (1 w start s)
  show ?case
  proof (cases "now s - start < on_MAX_WAIT")
    case False
    then show ?thesis by (subst on_poll.simps) simp
  next
    case inloop: True
    let ?r = "on_get_status w (sleep w on_POLL_INTERVAL s)"
    show ?thesis
    proof (cases "fst ?r = ''ON''")
      case True
      with inloop have "on_poll w start s = (Now, snd ?r)"
        by (subst on_poll.simps) simp
      then show ?thesis
        by (simp add: trace_on_get_status trace_sleep)
    next
      case False
      with inloop have eq: "on_poll w start s = on_poll w start (snd ?r)"
        by (subst on_poll.simps) simp
      from "1.IH" [OF inloop refl False] obtain rest where
        "trace (snd (on_poll w start (snd ?r))) = trace (snd ?r) @ rest" "ToggleRequest \<notin> set rest"
        by blast
      then show ?thesis
        by (simp add: eq trace_on_get_status trace_sleep)
    qed
  qed
qed

text \<open>When the loop test holds at the start, the loop sleeps and fetches at least once.\<close>

lemma on_poll_enters:
  assumes "now s - start < on_MAX_WAIT"
  shows "\<exists>rest. trace (snd (on_poll w start s)) = trace s @ Sleep # StatusRequest # rest
                \<and> ToggleRequest \<notin> set rest"
proof -
  let ?r = "on_get_status w (sleep w on_POLL_INTERVAL s)"
  show ?thesis
  proof (cases "fst ?r = ''ON''")
    case True
    with assms have "on_poll w start s = (Now, snd ?r)"
      by (subst on_poll.simps) simp
    then show ?thesis by (simp add: trace_on_get_status trace_sleep)
  next
    case False
    with assms have eq: "on_poll w start s = on_poll w start (snd ?r)"
      by (subst on_poll.simps) simp
    from on_poll_trace [of w start "snd ?r"] show ?thesis
      by (auto simp add: eq trace_on_get_status trace_sleep)
  qed
qed

text \<open>The loop ends with \<open>Timeout\<close> only when the loop test has failed.\<close>

lemma on_poll_Timeout_elapsed:
  "fst (on_poll w start s) = Timeout \<Longrightarrow> on_MAX_WAIT \<le> now (snd (on_poll w start s)) - start"
proof (induction w start s rule: on_poll.induct)
  case (1 w start s)
  show ?case
  proof (cases "now s - start < on_MAX_WAIT")
    case False
    then have "on_poll w start s = (Timeout, s)" by (subst on_poll.simps) simp
    with False show ?thesis by simp
  next
    case inloop: True
    let ?r = "on_get_status w (sleep w on_POLL_INTERVAL s)"
    show ?thesis
    proof (cases "fst ?r = ''ON''")
      case True
      with inloop have "on_poll w start s = (Now, snd ?r)"
        by (subst on_poll.simps) simp
      with "1.prems" show ?thesis by simp
    next
      case False
      with inloop have eq: "on_poll w start s = on_poll w start (snd ?r)"
        by (subst on_poll.simps) simp
      from "1.IH" [OF inloop refl False] "1.prems" show ?thesis
        by (simp add: eq)
    qed
  qed
qed

text \<open>A device that never reports ON leaves the loop by the deadline only.\<close>

lemma on_poll_never_on:
  "\<forall>s. fst (on_get_status w s) \<noteq> ''ON'' \<Longrightarrow> fst (on_poll w start s) = Timeout"
proof (induction w start s rule: on_poll.induct)
  case (1 w start s)
  show ?case
  proof (cases "now s - start < on_MAX_WAIT")
    case False
    then show ?thesis by (subst on_poll.simps) simp
  next
    case inloop: True
    let ?r = "on_get_status w (sleep w on_POLL_INTERVAL s)"
    from "1.prems" have no: "fst ?r \<noteq> ''ON''" by blast
    with inloop have eq: "on_poll w start s = on_poll w start (snd ?r)"
      by (subst on_poll.simps) simp
    from "1.IH" [OF inloop refl no "1.prems"] show ?thesis by (simp add: eq)
  qed
qed

text \<open>Each round sleeps once and takes at least three time units, so the rounds are
  bounded by the time left.\<close>

lemma in_loop_iff: "0 < m \<Longrightarrow> (n::nat) - start < m \<longleftrightarrow> n < start + m"
  by (cases "start \<le> n") (simp_all add: less_diff_conv2 add.commute)

lemma on_poll_sleeps:
  "(now s < start + on_MAX_WAIT \<longrightarrow>
      3 * sleeps (snd (on_poll w start s)) + now s \<le> 3 * sleeps s + start + on_MAX_WAIT + 2)
   \<and> (start + on_MAX_WAIT \<le> now s \<longrightarrow> sleeps (snd (on_poll w start s)) = sleeps s)"
proof (induction w start s rule: on_poll.induct)
  case (1 w start s)
  have pos: "0 < on_MAX_WAIT" by (simp add: on_MAX_WAIT_def)
  show ?case
  proof (cases "now s - start < on_MAX_WAIT")
    case False
    then have "on_poll w start s = (Timeout, s)" by (subst on_poll.simps) simp
    moreover from False have "start + on_MAX_WAIT \<le> now s"
      by (simp add: in_loop_iff [OF pos])
    ultimately show ?thesis by simp
  next
    case inloop: True
    then have lt: "now s < start + on_MAX_WAIT" by (simp add: in_loop_iff [OF pos])
    let ?r = "on_get_status w (sleep w on_POLL_INTERVAL s)"
    have sl: "sleeps (snd ?r) = Suc (sleeps s)"
      by (simp add: sleeps_on_get_status sleeps_sleep)
    have later: "now s + 3 \<le> now (snd ?r)"
      by (simp add: now_on_get_status now_sleep on_POLL_INTERVAL_def)
    show ?thesis
    proof (cases "fst ?r = ''ON''")
      case True
      with inloop have "on_poll w start s = (Now, snd ?r)"
        by (subst on_poll.simps) simp
      with lt sl show ?thesis by simp
    next
      case False
      with inloop have eq: "on_poll w start s = on_poll w start (snd ?r)"
        by (subst on_poll.simps) simp
      note IH = "1.IH" [OF inloop refl False]
      show ?thesis
      proof (cases "now (snd ?r) < start + on_MAX_WAIT")
        case True
        with IH have "3 * sleeps (snd (on_poll w start (snd ?r))) + now (snd ?r)
                      \<le> 3 * sleeps (snd ?r) + start + on_MAX_WAIT + 2"
          by blast
        with sl later lt show ?thesis unfolding eq by linarith
      next
        case False
        with IH have "sleeps (snd (on_poll w start (snd ?r))) = sleeps (snd ?r)"
          by simp
        with sl lt show ?thesis unfolding eq by linarith
      qed
    qed
  qed
qed

subsection \<open>The polling loop of off.py\<close>

lemma off_poll_trace:
  "\<exists>rest. trace (snd (off_poll w start s)) = trace s @ rest \<and> ToggleRequest \<notin> set rest"
proof (induction w start s rule: off_poll.induct)
  case (1 w start s)
  show ?case
  proof (cases "now s - start < off_MAX_WAIT")
    case False
    then show ?thesis by (subst off_poll.simps) simp
  next
    case inloop: True
    let ?r = "off_get_status w (sleep w off_POLL_INTERVAL s)"
    show ?thesis
    proof (cases "fst ?r = ''OFF''")
      case True
      with inloop have "off_poll w start s = (Now, snd ?r)"
        by (subst off_poll.simps) simp
      then show ?thesis
        by (simp add: trace_off_get_status trace_sleep)
    next
      case False
      with inloop have eq: "off_poll w start s = off_poll w start (snd ?r)"
        by (subst off_poll.simps) simp
      from "1.IH" [OF inloop refl False] obtain rest where
        "trace (snd (off_poll w start (snd ?r))) = trace (snd ?r) @ rest" "ToggleRequest \<notin> set rest"
        by blast
      then show ?thesis
        by (simp add: eq trace_off_get_status trace_sleep)
    qed
  qed
qed

lemma off_poll_enters:
  assumes "now s - start < off_MAX_WAIT"
  shows "\<exists>rest. trace (snd (off_poll w start s)) = trace s @ Sleep # StatusRequest # rest
                \<and> ToggleRequest \<notin> set rest"
proof -
  let ?r = "off_get_status w (sleep w off_POLL_INTERVAL s)"
  show ?thesis
  proof (cases "fst ?r = ''OFF''")
    case True
    with assms have "off_poll w start s = (Now, snd ?r)"
      by (subst off_poll.simps) simp
    then show ?thesis by (simp add: trace_off_get_status trace_sleep)
  next
    case False
    with assms have eq: "off_poll w start s = off_poll w start (snd ?r)"
      by (subst off_poll.simps) simp
    from off_poll_trace [of w start "snd ?r"] show ?thesis
      by (auto simp add: eq trace_off_get_status trace_sleep)
  qed
qed

lemma off_poll_not_Already: "fst (off_poll w start s) \<noteq> Already"
  by (induction w start s rule: off_poll.induct)
     (subst off_poll.simps, simp add: Let_def)

subsection \<open>Power-on sessions\<close>

lemma page_STANDBY_off:
  "on_normalize_status (on_parse_info_status (page ''STANDBY'')) = ''OFF''"
  by code_simp

text \<open>
  C3. In a power-on run where every status check yields OFF, the session sends exactly
  one toggle, before the first poll, and none from inside the loop; it ends with the
  timed-out outcome (exit code 1), and then at least 90 time units have passed since
  the loop was entered; with a sleep of 3 time units in every round, the loop has at
  most 30 rounds.
\<close>

theorem on_main_always_off_times_out:
  assumes "\<forall>s. fst (on_get_status w s) = ''OFF''"
  shows "fst (on_main w) = Timeout \<and>
         exit_code (fst (on_main w)) = 1 \<and>
         count_list (trace (snd (on_main w))) ToggleRequest = 1 \<and>
         (\<exists>rest. trace (snd (on_main w))
                   = [StatusRequest, ToggleRequest, Sleep, StatusRequest] @ rest
                 \<and> ToggleRequest \<notin> set rest) \<and>
         90 \<le> now (snd (on_main w)) - now (toggle_power w (snd (on_get_status w init))) \<and>
         sleeps (snd (on_main w)) \<le> 30"
proof -
  let ?s = "toggle_power w (snd (on_get_status w init))"
  from assms have first: "fst (on_get_status w init) \<noteq> ''ON''" by simp
  then have main: "on_main w = on_poll w (now ?s) ?s"
    by (simp add: on_main_def Let_def)
  from assms have never: "\<forall>s. fst (on_get_status w s) \<noteq> ''ON''" by simp
  have out: "fst (on_main w) = Timeout"
    using on_poll_never_on [OF never] by (simp add: main)
  have "now ?s - now ?s < on_MAX_WAIT" by (simp add: on_MAX_WAIT_def)
  from on_poll_enters [OF this] obtain rest where
    rest: "trace (snd (on_main w)) = trace ?s @ Sleep # StatusRequest # rest"
          "ToggleRequest \<notin> set rest"
    unfolding main by blast
  have pre: "trace ?s = [StatusRequest, ToggleRequest]"
    by (simp add: trace_toggle_power trace_on_get_status init_def)
  have shape: "trace (snd (on_main w))
               = [StatusRequest, ToggleRequest, Sleep, StatusRequest] @ rest"
    using rest(1) pre by simp
  have cnt: "count_list (trace (snd (on_main w))) ToggleRequest = 1"
    using rest(2) by (simp add: shape count_list_0_iff)
  have el: "90 \<le> now (snd (on_main w)) - now ?s"
    using on_poll_Timeout_elapsed [of w "now ?s" ?s] out
    by (simp add: main on_MAX_WAIT_def)
  have "sleeps ?s = 0"
    by (simp add: toggle_power_def sleeps_on_get_status init_def)
  with on_poll_sleeps [of ?s "now ?s" w]
  have "3 * sleeps (snd (on_main w)) \<le> 92"
    by (simp add: main on_MAX_WAIT_def)
  then have rounds: "sleeps (snd (on_main w)) \<le> 30" by linarith
  from out cnt shape rest(2) el rounds show ?thesis by auto
qed

theorem on_main_always_off_times_out_witness:
  "fst (on_main (steady ''STANDBY'')) = Timeout \<and>
   count_list (trace (snd (on_main (steady ''STANDBY'')))) ToggleRequest = 1 \<and>
   sleeps (snd (on_main (steady ''STANDBY''))) \<le> 30"
proof -
  have "\<forall>s. fst (on_get_status (steady ''STANDBY'') s) = ''OFF''"
    by (simp add: on_get_status_def fetch_def steady_def page_STANDBY_off)
  from on_main_always_off_times_out [OF this] show ?thesis by blast
qed

subsection \<open>Power-off sessions\<close>

text \<open>Every run whose first status is not OFF enters the loop; it has sent a toggle
  before that exactly when the first status is ON.\<close>

lemma off_main_not_off:
  assumes "fst (off_get_status w init) \<noteq> ''OFF''"
  shows "\<exists>rest. trace (snd (off_main w))
                  = StatusRequest
                    # (if fst (off_get_status w init) = ''ON'' then [ToggleRequest] else [])
                    @ Sleep # StatusRequest # rest
                \<and> ToggleRequest \<notin> set rest"
proof -
  let ?r = "off_get_status w init"
  let ?s = "if fst ?r = ''ON'' then toggle_power w (snd ?r) else snd ?r"
  from assms have main: "off_main w = off_poll w (now ?s) ?s"
    by (simp add: off_main_def Let_def)
  have "now ?s - now ?s < off_MAX_WAIT" by (simp add: off_MAX_WAIT_def)
  from off_poll_enters [OF this] obtain rest where
    rest: "trace (snd (off_main w)) = trace ?s @ Sleep # StatusRequest # rest"
          "ToggleRequest \<notin> set rest"
    unfolding main by blast
  have "trace ?s = StatusRequest # (if fst ?r = ''ON'' then [ToggleRequest] else [])"
    by (simp add: trace_toggle_power trace_off_get_status init_def)
  with rest show ?thesis by simp
qed

lemma first_status_examples:
  "fst (off_get_status (then_standby ''STARTUP1'') init) = ''ON''"
  "fst (off_get_status (then_standby ''Cooling1'') init) = ''COOLING''"
  "fst (off_get_status (steady ''standby'') init) = ''OFF''"
  "fst (off_get_status unreachable init) = ''UNKNOWN''"
  by code_simp+

text \<open>
  C2, as the code has it. In power-off mode, when the first status is ON (startup
  variants included) the session sends exactly one toggle and then enters the polling
  loop; when the first status is UNKNOWN it sends no toggle and enters the polling loop.
  In both cases the loop sends none.
\<close>

theorem off_main_toggle_on_only:
  assumes "fst (off_get_status w init) \<in> {''ON'', ''UNKNOWN''}"
  shows "(\<exists>rest. trace (snd (off_main w))
                  = StatusRequest
                    # (if fst (off_get_status w init) = ''ON'' then [ToggleRequest] else [])
                    @ Sleep # StatusRequest # rest
                \<and> ToggleRequest \<notin> set rest) \<and>
         count_list (trace (snd (off_main w))) ToggleRequest
           = (if fst (off_get_status w init) = ''ON'' then 1 else 0)"
proof -
  from assms have "fst (off_get_status w init) \<noteq> ''OFF''" by auto
  from off_main_not_off [OF this] obtain rest where
    rest: "trace (snd (off_main w))
             = StatusRequest
               # (if fst (off_get_status w init) = ''ON'' then [ToggleRequest] else [])
               @ Sleep # StatusRequest # rest"
          "ToggleRequest \<notin> set rest"
    by blast
  then have "count_list (trace (snd (off_main w))) ToggleRequest
               = (if fst (off_get_status w init) = ''ON'' then 1 else 0)"
    by (simp add: count_list_0_iff)
  with rest show ?thesis by blast
qed

theorem off_main_toggle_on_only_witness:
  "fst (off_get_status (then_standby ''STARTUP1'') init) = ''ON'' \<and>
   (\<exists>rest. trace (snd (off_main (then_standby ''STARTUP1'')))
             = StatusRequest # ToggleRequest # Sleep # StatusRequest # rest
           \<and> ToggleRequest \<notin> set rest) \<and>
   count_list (trace (snd (off_main (then_standby ''STARTUP1'')))) ToggleRequest = 1"
  using off_main_toggle_on_only [of "then_standby ''STARTUP1''"]
  by (simp add: first_status_examples)

text \<open>The claim as the specification words it, one toggle also when the first status is
  UNKNOWN, fails: against a device that cannot be reached the first status is UNKNOWN
  and the whole run sends no toggle.\<close>

theorem off_main_unknown_no_toggle:
  "fst (off_get_status unreachable init) = ''UNKNOWN'' \<and>
   count_list (trace (snd (off_main unreachable))) ToggleRequest = 0"
  by code_simp

text \<open>
  C4. In power-off mode, when the first status is COOLING, the session sends no toggle
  in its whole run, and it enters the polling loop: it sleeps and checks the status
  again, and does not end as already satisfied.
\<close>

theorem off_main_cooling_no_toggle:
  assumes "fst (off_get_status w init) = ''COOLING''"
  shows "ToggleRequest \<notin> set (trace (snd (off_main w))) \<and>
         count_list (trace (snd (off_main w))) ToggleRequest = 0 \<and>
         (\<exists>rest. trace (snd (off_main w)) = StatusRequest # Sleep # StatusRequest # rest) \<and>
         fst (off_main w) \<noteq> Already"
proof -
  from assms have no: "fst (off_get_status w init) \<noteq> ''OFF''" by simp
  from off_main_not_off [OF no] assms obtain rest where
    rest: "trace (snd (off_main w)) = StatusRequest # Sleep # StatusRequest # rest"
          "ToggleRequest \<notin> set rest"
    by auto
  then have a: "ToggleRequest \<notin> set (trace (snd (off_main w)))" by simp
  from no have "fst (off_main w) \<noteq> Already"
    by (simp add: off_main_def Let_def off_poll_not_Already)
  with a rest show ?thesis by (simp add: count_list_0_iff)
qed

theorem off_main_cooling_no_toggle_witness:
  "fst (off_get_status (then_standby ''Cooling1'') init) = ''COOLING'' \<and>
   count_list (trace (snd (off_main (then_standby ''Cooling1'')))) ToggleRequest = 0 \<and>
   (\<exists>rest. trace (snd (off_main (then_standby ''Cooling1'')))
             = StatusRequest # Sleep # StatusRequest # rest)"
  using off_main_cooling_no_toggle [of "then_standby ''Cooling1''"]
  by (simp add: first_status_examples)

text \<open>
  C5. In power-off mode, when the first status is OFF, the session ends at once as
  already satisfied, with exit code 0: its only action is the first status check, so it
  sends no toggle, fetches the status once and never sleeps.
\<close>

theorem off_main_already_off:
  assumes "fst (off_get_status w init) = ''OFF''"
  shows "off_main w = (Already, snd (off_get_status w init)) \<and>
         exit_code (fst (off_main w)) = 0 \<and>
         trace (snd (off_main w)) = [StatusRequest] \<and>
         fetches (snd (off_main w)) = 1 \<and>
         sleeps (snd (off_main w)) = 0"
proof -
  from assms have main: "off_main w = (Already, snd (off_get_status w init))"
    by (simp add: off_main_def Let_def)
  have "fetches (snd (off_get_status w init)) = 1"
       "sleeps (snd (off_get_status w init)) = 0"
    by (simp_all add: off_get_status_def fetch_def init_def split: sum.splits)
  then show ?thesis
    by (simp add: main trace_off_get_status init_def)
qed

theorem off_main_already_off_witness:
  "fst (off_get_status (steady ''standby'') init) = ''OFF'' \<and>
   exit_code (fst (off_main (steady ''standby''))) = 0 \<and>
   trace (snd (off_main (steady ''standby''))) = [StatusRequest] \<and>
   fetches (snd (off_main (steady ''standby''))) = 1"
proof -
  have first: "fst (off_get_status (steady ''standby'') init) = ''OFF''"
    by (rule first_status_examples)
  from off_main_already_off [OF first] first show ?thesis by blast
qed

subsection \<open>Status queries\<close>

text \<open>What holds of the exit codes: a page decides the code by its status, and the two
  exceptions that \<open>main\<close> catches give 4.\<close>

lemma query_main_exit_codes:
  "snd (query_main (Inr html)) =
     (let status = query_normalize_status (fst (query_parse_info_status html)) in
      if status = ''ON'' then Exit 0
      else if status = ''OFF'' then Exit 2
      else if status = ''COOLING'' then Exit 3
      else Exit 4)"
  "e \<noteq> OtherException \<Longrightarrow> query_main (Inl e) = (Some ''UNKNOWN'', Exit 4)"
  by (cases e; simp add: query_main_def Let_def)+

text \<open>
  C9. The exit code of the status query should be 0 for ON, 2 for OFF, 3 for COOLING and
  4 for UNKNOWN and for every failure of the fetch. A fetch that fails with an
  exception other than \<open>URLError\<close> is not caught: the run prints no status and ends in a
  traceback, not with exit code 4.
\<close>

theorem query_main_uncaught_exception:
  "query_main (Inl OtherException) = (None, Traceback OtherException) \<and>
   snd (query_main (Inl OtherException)) \<noteq> Exit 4"
  by (simp add: query_main_def)

end
